theory Spec2Isabelle
  imports Main "HOL-Library.Word" "HOL-Library.Sublist" "HOL-Library.List_Lexorder"
    "HOL-Library.Product_Lexorder"
begin

unbundle bit_operations_syntax

section \<open>Data model of \<open>internal/core/application/types.go\<close>\<close>

text \<open>
  Go byte slices are lists of 8-bit words. A nil slice and an empty slice are both
  the empty list: the code under study only appends to slices and returns them, and
  the two are indistinguishable by \<open>len\<close> and \<open>range\<close>.
\<close>

type_synonym byte = "8 word"
type_synonym bytes = "byte list"

text \<open>A Go \<open>error\<close> value is represented by its message.\<close>

type_synonym error = string

text \<open>
  A Go call either returns or panics. The only run-time panics the functions of
  \<open>types.go\<close> can raise themselves are out-of-range slice reads; a library routine
  that is handed a nil pointer may dereference it.
\<close>

datatype panic =
    IndexOutOfRange nat nat  \<comment> \<open>index, length\<close>
  | NilDereference

datatype 'a outcome = Panics panic | Returns 'a

text \<open>\<open>transaction.TxInput\<close>, \<open>transaction.TxOutput\<close> and \<open>transaction.Transaction\<close>
  of go-elements, with the fields that \<open>types.go\<close> reads.\<close>

record TxInput =
  in_Hash :: bytes
  in_Index :: "32 word"
  in_Witness :: "bytes list"

record TxOutput =
  out_Asset :: bytes
  out_Value :: bytes
  out_Script :: bytes
  out_Nonce :: bytes
  out_RangeProof :: bytes
  out_SurjectionProof :: bytes

record Transaction =
  Inputs :: "TxInput list"
  Outputs :: "TxOutput list"

text \<open>\<open>payment.Payment\<close>: only \<open>WitnessScript\<close> is read.\<close>

record Payment =
  WitnessScript :: bytes

text \<open>\<open>transactionutil.UnblindedResult\<close>.\<close>

record UnblindedResult =
  ur_Value :: "64 word"
  ur_AssetHash :: string
  ur_ValueBlinder :: bytes
  ur_AssetBlinder :: bytes

text \<open>\<open>domain.AddressInfo\<close>: the address, the blinding key and the owning script.\<close>

record AddressInfo =
  Address :: string
  BlindingKey :: bytes
  Script :: string

text \<open>\<open>domain.Unspent\<close>, with the fields set by the struct literal of
  \<open>ExtractUnspents\<close> (every other field of the Go struct keeps its zero value),
  and \<open>domain.UnspentKey\<close>. Field names are global in a theory, so the field
  \<open>Address\<close> of \<open>Unspent\<close> is \<open>UAddress\<close> here, and the fields of the other
  structs carry a prefix (\<open>in_\<close>, \<open>out_\<close>, \<open>ur_\<close>, \<open>key_\<close>, \<open>bd_\<close>) where they
  would clash.\<close>

record Unspent =
  TxID :: string
  VOut :: "32 word"
  Value :: "64 word"
  AssetHash :: string
  ValueCommitment :: string
  AssetCommitment :: string
  ValueBlinder :: bytes
  AssetBlinder :: bytes
  ScriptPubKey :: bytes
  Nonce :: bytes
  RangeProof :: bytes
  SurjectionProof :: bytes
  UAddress :: string
  Confirmed :: bool

record UnspentKey =
  key_TxID :: string
  key_VOut :: "32 word"

text \<open>
  The routines \<open>ExtractUnspents\<close> calls outside \<open>types.go\<close>. They are parameters of
  the model:
  \<^item> \<open>NewTxFromHex\<close> is \<open>transaction.NewTxFromHex\<close>: the parsed transaction or an error;
  \<^item> \<open>ParsePubKey\<close> is \<open>btcec.ParsePubKey\<close> on the curve S256; the caller drops its
    error, so only the pointer is kept, \<open>None\<close> being nil;
  \<^item> \<open>FromPublicKey\<close> is \<open>payment.FromPublicKey\<close> with a nil blinding key; it
    receives the possibly nil public key and may therefore panic;
  \<^item> \<open>UnblindOutput\<close> is \<open>transactionutil.UnblindOutput\<close>; \<open>None\<close> is \<open>ok = false\<close>;
  \<^item> \<open>TxIDFromBytes\<close> and \<open>CommitmentFromBytes\<close> are those of \<open>bufferutil\<close>;
  \<^item> \<open>TxHash\<close> is \<open>tx.TxHash().String()\<close>.
\<close>

record ('pk, 'net) deps =
  NewTxFromHex :: "string \<Rightarrow> error + Transaction"
  ParsePubKey :: "bytes \<Rightarrow> 'pk option"
  FromPublicKey :: "'pk option \<Rightarrow> 'net \<Rightarrow> Payment outcome"
  UnblindOutput :: "TxOutput \<Rightarrow> bytes \<Rightarrow> UnblindedResult option"
  TxIDFromBytes :: "bytes \<Rightarrow> string"
  CommitmentFromBytes :: "bytes \<Rightarrow> string"
  TxHash :: "Transaction \<Rightarrow> string"

section \<open>\<open>hex.EncodeToString\<close>\<close>

definition hextable :: string where
  "hextable = ''0123456789abcdef''"

fun EncodeToString :: "bytes \<Rightarrow> string" where
  "EncodeToString [] = []"
| "EncodeToString (v # src) =
     hextable ! unat (drop_bit 4 v) # hextable ! unat (v AND 0x0f) # EncodeToString src"

section \<open>\<open>transactionManager.ExtractUnspents\<close>\<close>

text \<open>
  The first loop, over \<open>tx.Inputs\<close>, with the slice \<open>unspentsToSpend\<close> as accumulator.
  The guard is \<open>len(in.Witness) > 0\<close> and the read is \<open>in.Witness[1]\<close>, which panics
  when the witness stack has exactly one element.
\<close>

fun scanInputs ::
  "('pk, 'net) deps \<Rightarrow> (string \<rightharpoonup> AddressInfo) \<Rightarrow> 'net \<Rightarrow> TxInput list
    \<Rightarrow> UnspentKey list \<Rightarrow> UnspentKey list outcome" where
  "scanInputs d infoByScript network [] unspentsToSpend = Returns unspentsToSpend"
| "scanInputs d infoByScript network (inp # ins) unspentsToSpend =
     (if length (in_Witness inp) > 0 then
        (if length (in_Witness inp) \<le> 1
         then Panics (IndexOutOfRange 1 (length (in_Witness inp)))
         else
           (case FromPublicKey d (ParsePubKey d (in_Witness inp ! 1)) network of
              Panics p \<Rightarrow> Panics p
            | Returns p \<Rightarrow>
                (case infoByScript (EncodeToString (WitnessScript p)) of
                   Some _ \<Rightarrow>
                     scanInputs d infoByScript network ins
                       (unspentsToSpend @
                         [\<lparr>key_TxID = TxIDFromBytes d (in_Hash inp), key_VOut = in_Index inp\<rparr>])
                 | None \<Rightarrow> scanInputs d infoByScript network ins unspentsToSpend)))
      else scanInputs d infoByScript network ins unspentsToSpend)"

text \<open>The error built by \<open>fmt.Errorf("unable to unblind output")\<close>.\<close>

definition unblindError :: error where
  "unblindError = ''unable to unblind output''"

text \<open>The struct literal appended for output \<open>i\<close>.\<close>

definition mkUnspent ::
  "('pk, 'net) deps \<Rightarrow> Transaction \<Rightarrow> nat \<Rightarrow> TxOutput \<Rightarrow> AddressInfo \<Rightarrow> UnblindedResult
    \<Rightarrow> Unspent" where
  "mkUnspent d tx i out info unconfidential =
     \<lparr>TxID = TxHash d tx,
      VOut = of_nat i,
      Value = ur_Value unconfidential,
      AssetHash = ur_AssetHash unconfidential,
      ValueCommitment = CommitmentFromBytes d (out_Value out),
      AssetCommitment = CommitmentFromBytes d (out_Asset out),
      ValueBlinder = ur_ValueBlinder unconfidential,
      AssetBlinder = ur_AssetBlinder unconfidential,
      ScriptPubKey = out_Script out,
      Nonce = out_Nonce out,
      RangeProof = replicate 1 0,
      SurjectionProof = replicate 1 0,
      UAddress = Address info,
      Confirmed = False\<rparr>"

text \<open>
  The second loop, over \<open>tx.Outputs\<close> from index \<open>i\<close> on, with the slice
  \<open>unspentsToAdd\<close> as accumulator. \<open>Inl\<close> is the early \<open>return nil, nil, err\<close>.
\<close>

fun scanOutputs ::
  "('pk, 'net) deps \<Rightarrow> (string \<rightharpoonup> AddressInfo) \<Rightarrow> Transaction \<Rightarrow> nat \<Rightarrow> TxOutput list
    \<Rightarrow> Unspent list \<Rightarrow> error + Unspent list" where
  "scanOutputs d infoByScript tx i [] unspentsToAdd = Inr unspentsToAdd"
| "scanOutputs d infoByScript tx i (out # outs) unspentsToAdd =
     (case infoByScript (EncodeToString (out_Script out)) of
        Some info \<Rightarrow>
          (case UnblindOutput d out (BlindingKey info) of
             None \<Rightarrow> Inl unblindError
           | Some unconfidential \<Rightarrow>
               scanOutputs d infoByScript tx (Suc i) outs
                 (unspentsToAdd @ [mkUnspent d tx i out info unconfidential]))
      | None \<Rightarrow> scanOutputs d infoByScript tx (Suc i) outs unspentsToAdd)"

text \<open>
  The whole call. The Go triple \<open>([]Unspent, []UnspentKey, error)\<close> is a triple
  whose last component is \<open>None\<close> for a nil error.
\<close>

definition ExtractUnspents ::
  "('pk, 'net) deps \<Rightarrow> string \<Rightarrow> (string \<rightharpoonup> AddressInfo) \<Rightarrow> 'net
    \<Rightarrow> (Unspent list \<times> UnspentKey list \<times> error option) outcome" where
  "ExtractUnspents d txHex infoByScript network =
     (case NewTxFromHex d txHex of
        Inl err \<Rightarrow> Returns ([], [], Some err)
      | Inr tx \<Rightarrow>
          (case scanInputs d infoByScript network (Inputs tx) [] of
             Panics p \<Rightarrow> Panics p
           | Returns unspentsToSpend \<Rightarrow>
               (case scanOutputs d infoByScript tx 0 (Outputs tx) [] of
                  Inl err \<Rightarrow> Returns ([], [], Some err)
                | Inr unspentsToAdd \<Rightarrow> Returns (unspentsToAdd, unspentsToSpend, None))))"

subsection \<open>The result of the call, as the specification describes it\<close>








section \<open>\<open>transactionManager.ExtractBlindingData\<close>\<close>

text \<open>\<open>BlindingData\<close>, declared as \<open>wallet.BlindingData\<close>: per index the asset, the
  amount and the two blinders.\<close>

record BlindingData =
  bd_Asset :: string
  bd_Amount :: "64 word"
  bd_AssetBlinder :: bytes
  bd_AmountBlinder :: bytes

text \<open>
  A Go map that may be nil is an optional map. \<open>entries\<close> reads it the way Go reads
  a nil map: as one without entries.
\<close>

type_synonym blinding_map = "(int \<rightharpoonup> BlindingData) option"

definition entries :: "blinding_map \<Rightarrow> (int \<rightharpoonup> BlindingData)" where
  "entries m = (case m of None \<Rightarrow> Map.empty | Some f \<Rightarrow> f)"

text \<open>
  The copy loop \<open>for i, d := range in { inBlindingData[i] = BlindingData(d) }\<close> into a
  fresh map; the conversion \<open>BlindingData(d)\<close> between the two identical struct types
  keeps every field.
\<close>

definition convertMap :: "blinding_map \<Rightarrow> blinding_map" where
  "convertMap m =
     (case m of
        None \<Rightarrow> None
      | Some f \<Rightarrow>
          Some (\<lambda>i. case f i of None \<Rightarrow> None
                     | Some d \<Rightarrow>
                         Some \<lparr>bd_Asset = bd_Asset d, bd_Amount = bd_Amount d,
                               bd_AssetBlinder = bd_AssetBlinder d,
                               bd_AmountBlinder = bd_AmountBlinder d\<rparr>))"

text \<open>
  The method of \<open>types.go\<close>. Its first argument stands for
  \<open>wallet.ExtractBlindingDataFromTx\<close>. The results are named, so the bare \<open>return\<close>
  after an error hands back two nil maps and the error.
\<close>

definition ExtractBlindingData ::
  "(string \<Rightarrow> (string \<rightharpoonup> bytes) \<Rightarrow> (string \<rightharpoonup> bytes)
      \<Rightarrow> blinding_map \<times> blinding_map \<times> error option)
    \<Rightarrow> string \<Rightarrow> (string \<rightharpoonup> bytes) \<Rightarrow> (string \<rightharpoonup> bytes)
    \<Rightarrow> blinding_map \<times> blinding_map \<times> error option" where
  "ExtractBlindingData extractBlindingDataFromTx psetBase64 inBlindingKeys outBlindingKeys =
     (case extractBlindingDataFromTx psetBase64 inBlindingKeys outBlindingKeys of
        (inp, out, err) \<Rightarrow>
          (case err of
             Some e \<Rightarrow> (None, None, Some e)
           | None \<Rightarrow> (convertMap inp, convertMap out, None)))"

subsection \<open>The blinding data extractor of the wallet package\<close>

text \<open>
  \<open>wallet.ExtractBlindingDataFromTx\<close> is not among the sources at hand; it is
  modelled from section 4.3 of the specification.
\<close>

text \<open>
  Modelled from the spec: the partially signed transaction that
  \<open>wallet.ExtractBlindingDataFromTx\<close> parses. It lists, for every input and every
  output index, the identifier under which a blinding key may be supplied
  ("\<open>map[identifier -> key]\<close>") and the confidential output to unblind (for an
  input, the output it spends).
\<close>

record PsetEntry =
  pe_Ident :: string
  pe_Output :: TxOutput

record Pset =
  ps_Inputs :: "PsetEntry list"
  ps_Outputs :: "PsetEntry list"

text \<open>
  Modelled from the spec: the \<open>BlindingData\<close> that \<open>wallet.ExtractBlindingDataFromTx\<close>
  records for an unblinded output, "per-index {asset id, value, asset blinder,
  value blinder}".
\<close>

definition toBlindingData :: "UnblindedResult \<Rightarrow> BlindingData" where
  "toBlindingData r =
     \<lparr>bd_Asset = ur_AssetHash r, bd_Amount = ur_Value r,
      bd_AssetBlinder = ur_AssetBlinder r, bd_AmountBlinder = ur_ValueBlinder r\<rparr>"

text \<open>
  Modelled from the spec: the per-index loop of \<open>wallet.ExtractBlindingDataFromTx\<close>.
  "For every input/output index for which a key is supplied, attempt unblinding;
  indices without a supplied key are skipped (return no entry, not an error)." A
  failed attempt is the unblind error of section 7, returned to the caller.
\<close>

fun unblindEntries ::
  "(TxOutput \<Rightarrow> bytes \<Rightarrow> UnblindedResult option) \<Rightarrow> (string \<rightharpoonup> bytes) \<Rightarrow> nat
    \<Rightarrow> PsetEntry list \<Rightarrow> (int \<rightharpoonup> BlindingData) \<Rightarrow> error + (int \<rightharpoonup> BlindingData)" where
  "unblindEntries unblind keys i [] acc = Inr acc"
| "unblindEntries unblind keys i (e # es) acc =
     (case keys (pe_Ident e) of
        None \<Rightarrow> unblindEntries unblind keys (Suc i) es acc
      | Some key \<Rightarrow>
          (case unblind (pe_Output e) key of
             None \<Rightarrow> Inl unblindError
           | Some r \<Rightarrow>
               unblindEntries unblind keys (Suc i) es (acc(int i \<mapsto> toBlindingData r))))"

text \<open>
  Modelled from the spec: the vocabulary of section 4.3 for the entries that
  \<open>wallet.ExtractBlindingDataFromTx\<close> walks through: the "index for which a key is
  supplied", and whether the attempt on every such index succeeds. Entries without
  a key do not count in either.
\<close>

definition keyedIndices :: "(string \<rightharpoonup> bytes) \<Rightarrow> PsetEntry list \<Rightarrow> int set" where
  "keyedIndices keys es =
     set (map int (filter (\<lambda>j. keys (pe_Ident (es ! j)) \<noteq> None) [0..<length es]))"

definition keyedUnblind ::
  "(TxOutput \<Rightarrow> bytes \<Rightarrow> UnblindedResult option) \<Rightarrow> (string \<rightharpoonup> bytes) \<Rightarrow> PsetEntry list
    \<Rightarrow> bool" where
  "keyedUnblind unblind keys es =
     list_all (\<lambda>e. case keys (pe_Ident e) of None \<Rightarrow> True
                    | Some key \<Rightarrow> unblind (pe_Output e) key \<noteq> None) es"

text \<open>
  Modelled from the spec: \<open>wallet.ExtractBlindingDataFromTx\<close>. "If the underlying
  transaction cannot be parsed, fail immediately." The parser of partially signed
  transactions and the commitment unblinder are parameters.
\<close>

definition ExtractBlindingDataFromTx ::
  "(string \<Rightarrow> error + Pset) \<Rightarrow> (TxOutput \<Rightarrow> bytes \<Rightarrow> UnblindedResult option)
    \<Rightarrow> string \<Rightarrow> (string \<rightharpoonup> bytes) \<Rightarrow> (string \<rightharpoonup> bytes)
    \<Rightarrow> blinding_map \<times> blinding_map \<times> error option" where
  "ExtractBlindingDataFromTx newPsetFromBase64 unblind psetBase64 inBlindingKeys outBlindingKeys =
     (case newPsetFromBase64 psetBase64 of
        Inl err \<Rightarrow> (None, None, Some err)
      | Inr ptx \<Rightarrow>
          (case unblindEntries unblind inBlindingKeys 0 (ps_Inputs ptx) Map.empty of
             Inl err \<Rightarrow> (None, None, Some err)
           | Inr inData \<Rightarrow>
               (case unblindEntries unblind outBlindingKeys 0 (ps_Outputs ptx) Map.empty of
                  Inl err \<Rightarrow> (None, None, Some err)
                | Inr outData \<Rightarrow> (Some inData, Some outData, None))))"

section \<open>The fill proposal builder\<close>

text \<open>
  \<open>tradeManager.FillProposal\<close> only forwards to \<open>fillProposal\<close>, which is not among the
  sources at hand. \<open>SwapInfo\<close>, \<open>FillProposalOpts\<close> and \<open>FillProposalResult\<close> are
  the structs of \<open>types.go\<close>; the selection and the builder are modelled from
  section 4.4 of the specification.
\<close>

record SwapInfo =
  AmountP :: "64 word"
  AssetP :: string
  AmountR :: "64 word"
  AssetR :: string

record FillProposalOpts =
  SwapRequest :: SwapInfo
  MarketUtxos :: "Unspent list"
  FeeUtxos :: "Unspent list"
  OutputInfo :: AddressInfo
  ChangeInfo :: AddressInfo
  FeeChangeInfo :: AddressInfo

record FillProposalResult =
  PsetBase64 :: string
  SelectedUnspents :: "Unspent list"
  InputBlindingKeys :: "string \<rightharpoonup> bytes"
  OutputBlindingKeys :: "string \<rightharpoonup> bytes"

text \<open>Modelled from the spec: the error kinds that \<open>fillProposal\<close> and the other
  components report, as listed in section 7.\<close>

datatype error_kind =
    ParseError
  | UnblindError
  | InsufficientFundsError
  | InsufficientFeeFundsError
  | ConservationViolationError
  | ConfigurationError

text \<open>
  Modelled from the spec: the selections of \<open>fillProposal\<close>. A selection is the list
  of the chosen positions of the pool, in increasing order; \<open>pick\<close> reads the UTXOs
  at these positions and \<open>sumValues\<close> is their "unblinded value sum", a sum of
  natural numbers.
\<close>

definition pick :: "Unspent list \<Rightarrow> nat list \<Rightarrow> Unspent list" where
  "pick utxos sel = map (\<lambda>i. utxos ! i) sel"

definition sumValues :: "Unspent list \<Rightarrow> nat" where
  "sumValues us = sum_list (map (\<lambda>u. unat (Value u)) us)"

text \<open>
  Modelled from the spec: the subsets that the selection of \<open>fillProposal\<close> ranges
  over, those of the UTXOs of the pool that hold the wanted asset, each as its
  increasing list of positions.
\<close>

definition candidates :: "Unspent list \<Rightarrow> string \<Rightarrow> nat list list" where
  "candidates utxos asset =
     subseqs (filter (\<lambda>i. AssetHash (utxos ! i) = asset) [0..<length utxos])"

text \<open>Modelled from the spec: the test of the selection of \<open>fillProposal\<close>, "whose
  unblinded value sum is \<open>\<ge>\<close> requested amount".\<close>

definition covers :: "Unspent list \<Rightarrow> nat \<Rightarrow> nat list \<Rightarrow> bool" where
  "covers utxos amount sel \<longleftrightarrow> amount \<le> sumValues (pick utxos sel)"

text \<open>
  Modelled from the spec: the covering subsets of the selection of \<open>fillProposal\<close>,
  in the spec's own words. \<open>sel\<close> is "a subset of \<open>marketUtxos\<close> whose unblinded
  value sum is \<open>\<ge>\<close> requested amount", a subset being an increasing list of
  positions of UTXOs of the wanted asset. \<open>candidates\<close> and \<open>covers\<close> compute it.
\<close>

definition coveringSubset :: "Unspent list \<Rightarrow> string \<Rightarrow> nat \<Rightarrow> nat list \<Rightarrow> bool" where
  "coveringSubset utxos asset amount sel \<longleftrightarrow>
     sorted_wrt (<) sel \<and>
     (\<forall>i\<in>set sel. i < length utxos \<and> AssetHash (utxos ! i) = asset) \<and>
     amount \<le> sumValues (pick utxos sel)"

text \<open>Modelled from the spec: the leftover of a selection of \<open>fillProposal\<close>, "selected
  sum \<open>-\<close> requested amount".\<close>

definition leftover :: "Unspent list \<Rightarrow> nat \<Rightarrow> nat list \<Rightarrow> nat" where
  "leftover utxos amount sel = sumValues (pick utxos sel) - amount"

text \<open>
  Modelled from the spec: the order in which the selection of \<open>fillProposal\<close>
  prefers one subset to another, "minimizing leftover (ties broken by fewest inputs,
  then by insertion order of \<open>marketUtxos\<close>)". The rank of a selection is the triple
  of its leftover, its number of inputs and its positions, compared
  lexicographically; two lists of positions of equal length compare by the first
  position where they differ, the earlier inserted UTXO first.
\<close>

definition rank :: "Unspent list \<Rightarrow> nat \<Rightarrow> nat list \<Rightarrow> nat \<times> nat \<times> nat list" where
  "rank utxos amount sel = (leftover utxos amount sel, length sel, sel)"

text \<open>Modelled from the spec: the search of \<open>fillProposal\<close> for the subset of least
  rank, one pass over the covering subsets that keeps the best one seen.\<close>

fun best :: "Unspent list \<Rightarrow> nat \<Rightarrow> nat list list \<Rightarrow> nat list \<Rightarrow> nat list" where
  "best utxos amount [] cur = cur"
| "best utxos amount (c # cs) cur =
     best utxos amount cs (if rank utxos amount c < rank utxos amount cur then c else cur)"

text \<open>Modelled from the spec: the coin selection of \<open>fillProposal\<close>, step 1 of the
  algorithm of section 4.4, for the pool \<open>utxos\<close>. \<open>None\<close> is "no covering subset
  exists".\<close>

definition selectUtxos :: "Unspent list \<Rightarrow> string \<Rightarrow> nat \<Rightarrow> nat list option" where
  "selectUtxos utxos asset amount =
     (case filter (covers utxos amount) (candidates utxos asset) of
        [] \<Rightarrow> None
      | c # cs \<Rightarrow> Some (best utxos amount cs c))"

text \<open>Modelled from the spec: the selection of \<open>fillProposal\<close> for the requested leg,
  from \<open>MarketUtxos\<close>, for the asset and the amount of leg R of the request.\<close>

definition marketSelection :: "FillProposalOpts \<Rightarrow> nat list option" where
  "marketSelection opts =
     selectUtxos (MarketUtxos opts) (AssetR (SwapRequest opts))
       (unat (AmountR (SwapRequest opts)))"

text \<open>
  Modelled from the spec: \<open>fillProposal\<close>, the builder of section 4.4. Step 1
  selects from \<open>MarketUtxos\<close> for the requested leg and fails with the
  insufficient-funds error; step 3 selects from \<open>FeeUtxos\<close> for the fee, "a fixed
  numeric fee amount" supplied from outside, and fails with the
  insufficient-fee-funds error. The construction of the outputs and of the
  partially signed transaction (steps 2 and 4 to 6) is the parameter \<open>construct\<close>,
  which receives the two selections.
\<close>

definition Fill ::
  "(FillProposalOpts \<Rightarrow> Unspent list \<Rightarrow> Unspent list \<Rightarrow> error_kind + FillProposalResult)
    \<Rightarrow> string \<Rightarrow> nat \<Rightarrow> FillProposalOpts \<Rightarrow> error_kind + FillProposalResult" where
  "Fill construct feeAsset feeAmount opts =
     (case marketSelection opts of
        None \<Rightarrow> Inl InsufficientFundsError
      | Some marketSel \<Rightarrow>
          (case selectUtxos (FeeUtxos opts) feeAsset feeAmount of
             None \<Rightarrow> Inl InsufficientFeeFundsError
           | Some feeSel \<Rightarrow>
               construct opts (pick (MarketUtxos opts) marketSel)
                 (pick (FeeUtxos opts) feeSel)))"

text \<open>\<open>tradeManager.FillProposal\<close> of \<open>types.go\<close>: it returns what \<open>fillProposal\<close>
  returns.\<close>

definition FillProposal ::
  "(FillProposalOpts \<Rightarrow> error_kind + FillProposalResult) \<Rightarrow> FillProposalOpts
    \<Rightarrow> error_kind + FillProposalResult" where
  "FillProposal fillProposal opts = fillProposal opts"

section \<open>Sample data\<close>

text \<open>
  A small instance of the parameters, used to run the definitions: a public key is
  its byte string, the witness script of a key \<open>k\<close> is \<open>00 14 k\<close>, the library
  dereferences a nil key, and an output unblinds exactly with the key equal to its
  nonce.
\<close>

definition ex_unblind :: "TxOutput \<Rightarrow> bytes \<Rightarrow> UnblindedResult option" where
  "ex_unblind out key =
     (if key = out_Nonce out
      then Some \<lparr>ur_Value = 1000, ur_AssetHash = ''a5'', ur_ValueBlinder = [1],
                 ur_AssetBlinder = [2]\<rparr>
      else None)"

definition ex_outA :: TxOutput where
  "ex_outA =
     \<lparr>out_Asset = [10], out_Value = [8], out_Script = [0x00, 0x14, 0xaa], out_Nonce = [7],
      out_RangeProof = [1, 2, 3], out_SurjectionProof = [4, 5]\<rparr>"

definition ex_outB :: TxOutput where
  "ex_outB =
     \<lparr>out_Asset = [11], out_Value = [9], out_Script = [0x00, 0x14, 0xbb], out_Nonce = [9],
      out_RangeProof = [6], out_SurjectionProof = [7]\<rparr>"

definition ex_outC :: TxOutput where
  "ex_outC =
     \<lparr>out_Asset = [12], out_Value = [9], out_Script = [0x51], out_Nonce = [],
      out_RangeProof = [], out_SurjectionProof = []\<rparr>"

definition ex_infoA :: AddressInfo where
  "ex_infoA = \<lparr>Address = ''addrA'', BlindingKey = [7], Script = ''0014aa''\<rparr>"

definition ex_infoB :: AddressInfo where
  "ex_infoB = \<lparr>Address = ''addrB'', BlindingKey = [8], Script = ''0014bb''\<rparr>"

definition ex_info :: "string \<rightharpoonup> AddressInfo" where
  "ex_info = [''0014aa'' \<mapsto> ex_infoA, ''0014bb'' \<mapsto> ex_infoB]"

definition ex_inOwned :: TxInput where
  "ex_inOwned = \<lparr>in_Hash = [1, 2], in_Index = 3, in_Witness = [[0x30], [0xaa]]\<rparr>"

definition ex_inLegacy :: TxInput where
  "ex_inLegacy = \<lparr>in_Hash = [3, 4], in_Index = 0, in_Witness = []\<rparr>"

definition ex_inOneWitness :: TxInput where
  "ex_inOneWitness = \<lparr>in_Hash = [5, 6], in_Index = 1, in_Witness = [[0x51]]\<rparr>"

definition ex_txOk :: Transaction where
  "ex_txOk = \<lparr>Inputs = [ex_inLegacy, ex_inOwned], Outputs = [ex_outC, ex_outA]\<rparr>"

definition ex_txBadKey :: Transaction where
  "ex_txBadKey = \<lparr>Inputs = [ex_inOwned], Outputs = [ex_outA, ex_outB]\<rparr>"

definition ex_txOneWitness :: Transaction where
  "ex_txOneWitness = \<lparr>Inputs = [ex_inOneWitness], Outputs = [ex_outA]\<rparr>"

definition ex_txOneWitnessBadKey :: Transaction where
  "ex_txOneWitnessBadKey = \<lparr>Inputs = [ex_inOneWitness], Outputs = [ex_outA, ex_outB]\<rparr>"

definition ex_deps :: "(bytes, unit) deps" where
  "ex_deps =
     \<lparr>NewTxFromHex =
        (\<lambda>s. if s = ''01'' then Inr ex_txOk
             else if s = ''02'' then Inr ex_txBadKey
             else if s = ''03'' then Inr ex_txOneWitness
             else if s = ''04'' then Inr ex_txOneWitnessBadKey
             else Inl ''invalid transaction''),
      ParsePubKey = (\<lambda>b. if b = [] then None else Some b),
      FromPublicKey =
        (\<lambda>pk net. case pk of None \<Rightarrow> Panics NilDereference
                   | Some k \<Rightarrow> Returns \<lparr>WitnessScript = [0x00, 0x14] @ k\<rparr>),
      UnblindOutput = ex_unblind,
      TxIDFromBytes = (\<lambda>h. EncodeToString (rev h)),
      CommitmentFromBytes = EncodeToString,
      TxHash = (\<lambda>tx. ''f00d'')\<rparr>"

text \<open>The unspent and the spent key expected from the transaction \<open>ex_txOk\<close>.\<close>

definition ex_unspent :: Unspent where
  "ex_unspent =
     \<lparr>TxID = ''f00d'', VOut = 1, Value = 1000, AssetHash = ''a5'',
      ValueCommitment = ''08'', AssetCommitment = ''0a'', ValueBlinder = [1],
      AssetBlinder = [2], ScriptPubKey = [0x00, 0x14, 0xaa], Nonce = [7],
      RangeProof = [0], SurjectionProof = [0], UAddress = ''addrA'', Confirmed = False\<rparr>"

definition ex_spentKey :: UnspentKey where
  "ex_spentKey = \<lparr>key_TxID = ''0201'', key_VOut = 3\<rparr>"

text \<open>A partially signed transaction with two inputs and one output; a key is
  supplied for the first input and for the output only.\<close>

definition ex_pset :: Pset where
  "ex_pset =
     \<lparr>ps_Inputs = [\<lparr>pe_Ident = ''0014aa'', pe_Output = ex_outA\<rparr>,
                   \<lparr>pe_Ident = ''0014bb'', pe_Output = ex_outB\<rparr>],
      ps_Outputs = [\<lparr>pe_Ident = ''51'', pe_Output = ex_outC\<rparr>]\<rparr>"

definition ex_newPset :: "string \<Rightarrow> error + Pset" where
  "ex_newPset s = (if s = ''cHNldP8='' then Inr ex_pset else Inl ''invalid pset'')"

definition ex_inKeys :: "string \<rightharpoonup> bytes" where
  "ex_inKeys = [''0014aa'' \<mapsto> [7]]"

definition ex_outKeys :: "string \<rightharpoonup> bytes" where
  "ex_outKeys = [''51'' \<mapsto> []]"

text \<open>A pool of five UTXOs, four of them of asset \<open>a5\<close>, and a request for 50 units.\<close>

definition ex_utxo :: "nat \<Rightarrow> 64 word \<Rightarrow> string \<Rightarrow> Unspent" where
  "ex_utxo n v asset =
     \<lparr>TxID = ''f00d'', VOut = of_nat n, Value = v, AssetHash = asset,
      ValueCommitment = [], AssetCommitment = [], ValueBlinder = [], AssetBlinder = [],
      ScriptPubKey = [], Nonce = [], RangeProof = [], SurjectionProof = [],
      UAddress = ''addrA'', Confirmed = True\<rparr>"

definition ex_pool :: "Unspent list" where
  "ex_pool = [ex_utxo 0 30 ''a5'', ex_utxo 1 70 ''b6'', ex_utxo 2 20 ''a5'',
              ex_utxo 3 50 ''a5'', ex_utxo 4 50 ''a5'']"

definition ex_opts :: FillProposalOpts where
  "ex_opts =
     \<lparr>SwapRequest = \<lparr>AmountP = 10, AssetP = ''b6'', AmountR = 50, AssetR = ''a5''\<rparr>,
      MarketUtxos = ex_pool,
      FeeUtxos = [ex_utxo 5 600 ''fe'', ex_utxo 6 500 ''fe''],
      OutputInfo = ex_infoA, ChangeInfo = ex_infoA, FeeChangeInfo = ex_infoB\<rparr>"

text \<open>The same request against a market that holds no UTXO of the requested asset.\<close>

definition ex_optsEmpty :: FillProposalOpts where
  "ex_optsEmpty = ex_opts\<lparr>MarketUtxos := [ex_utxo 1 70 ''b6'']\<rparr>"

definition ex_construct ::
  "FillProposalOpts \<Rightarrow> Unspent list \<Rightarrow> Unspent list \<Rightarrow> error_kind + FillProposalResult" where
  "ex_construct opts marketSel feeSel =
     Inr \<lparr>PsetBase64 = ''cHNldP8='', SelectedUnspents = marketSel @ feeSel,
          InputBlindingKeys = Map.empty, OutputBlindingKeys = Map.empty\<rparr>"









section \<open>Properties of \<open>ExtractUnspents\<close>\<close>

lemmas ex_defs =
  ex_deps_def ex_txOk_def ex_txBadKey_def ex_txOneWitness_def ex_txOneWitnessBadKey_def
  ex_inOwned_def ex_inLegacy_def ex_inOneWitness_def ex_info_def ex_infoA_def ex_infoB_def
  ex_outA_def ex_outB_def ex_outC_def ex_unblind_def hextable_def mkUnspent_def
  unblindError_def


lemma scanOutputs_member:
  "scanOutputs d info tx i outs acc = Inr us \<Longrightarrow> u \<in> set us \<Longrightarrow>
     u \<in> set acc \<or>
     (\<exists>j ai r. j < length outs \<and> info (EncodeToString (out_Script (outs ! j))) = Some ai \<and>
        UnblindOutput d (outs ! j) (BlindingKey ai) = Some r \<and>
        u = mkUnspent d tx (i + j) (outs ! j) ai r)"
proof (induction outs arbitrary: i acc)
  case Nil
  then show ?case by simp
next
  case (Cons out outs)
  show ?case
  proof (cases "info (EncodeToString (out_Script out))")
    case None
    with Cons.prems have "scanOutputs d info tx (Suc i) outs acc = Inr us" by simp
    from Cons.IH [OF this Cons.prems(2)] show ?thesis
    proof
      assume "u \<in> set acc" then show ?thesis by simp
    next
      assume "\<exists>j ai r. j < length outs \<and> info (EncodeToString (out_Script (outs ! j))) = Some ai \<and>
        UnblindOutput d (outs ! j) (BlindingKey ai) = Some r \<and>
        u = mkUnspent d tx (Suc i + j) (outs ! j) ai r"
      then obtain j ai r where j: "j < length outs"
        "info (EncodeToString (out_Script (outs ! j))) = Some ai"
        "UnblindOutput d (outs ! j) (BlindingKey ai) = Some r"
        "u = mkUnspent d tx (Suc i + j) (outs ! j) ai r" by blast
      then have "Suc j < length (out # outs) \<and>
        info (EncodeToString (out_Script ((out # outs) ! Suc j))) = Some ai \<and>
        UnblindOutput d ((out # outs) ! Suc j) (BlindingKey ai) = Some r \<and>
        u = mkUnspent d tx (i + Suc j) ((out # outs) ! Suc j) ai r" by simp
      then show ?thesis by blast
    qed
  next
    case (Some ai0)
    show ?thesis
    proof (cases "UnblindOutput d out (BlindingKey ai0)")
      case None
      with Some Cons.prems show ?thesis by simp
    next
      case (Some r0)
      with \<open>info (EncodeToString (out_Script out)) = Some ai0\<close> Cons.prems
      have "scanOutputs d info tx (Suc i) outs (acc @ [mkUnspent d tx i out ai0 r0]) = Inr us"
        by simp
      from Cons.IH [OF this Cons.prems(2)] show ?thesis
      proof
        assume "u \<in> set (acc @ [mkUnspent d tx i out ai0 r0])"
        then have "u \<in> set acc \<or> u = mkUnspent d tx i out ai0 r0" by auto
        then show ?thesis
        proof
          assume "u \<in> set acc" then show ?thesis by simp
        next
          assume "u = mkUnspent d tx i out ai0 r0"
          with Some \<open>info (EncodeToString (out_Script out)) = Some ai0\<close>
          have "0 < length (out # outs) \<and>
            info (EncodeToString (out_Script ((out # outs) ! 0))) = Some ai0 \<and>
            UnblindOutput d ((out # outs) ! 0) (BlindingKey ai0) = Some r0 \<and>
            u = mkUnspent d tx (i + 0) ((out # outs) ! 0) ai0 r0" by simp
          then show ?thesis by blast
        qed
      next
        assume "\<exists>j ai r. j < length outs \<and> info (EncodeToString (out_Script (outs ! j))) = Some ai \<and>
          UnblindOutput d (outs ! j) (BlindingKey ai) = Some r \<and>
          u = mkUnspent d tx (Suc i + j) (outs ! j) ai r"
        then obtain j ai r where j: "j < length outs"
          "info (EncodeToString (out_Script (outs ! j))) = Some ai"
          "UnblindOutput d (outs ! j) (BlindingKey ai) = Some r"
          "u = mkUnspent d tx (Suc i + j) (outs ! j) ai r" by blast
        then have "Suc j < length (out # outs) \<and>
          info (EncodeToString (out_Script ((out # outs) ! Suc j))) = Some ai \<and>
          UnblindOutput d ((out # outs) ! Suc j) (BlindingKey ai) = Some r \<and>
          u = mkUnspent d tx (i + Suc j) ((out # outs) ! Suc j) ai r" by simp
        then show ?thesis by blast
      qed
    qed
  qed
qed

text \<open>An owned output that does not unblind makes the output loop return the error.\<close>

lemma scanOutputs_fail_fast:
  "out \<in> set outs \<Longrightarrow> info (EncodeToString (out_Script out)) = Some ai \<Longrightarrow>
   UnblindOutput d out (BlindingKey ai) = None \<Longrightarrow>
   scanOutputs d info tx i outs acc = Inl unblindError"
proof (induction outs arbitrary: i acc)
  case Nil
  then show ?case by simp
next
  case (Cons o1 outs)
  show ?case
  proof (cases "o1 = out")
    case True
    with Cons.prems show ?thesis by simp
  next
    case False
    with Cons.prems have "out \<in> set outs" by simp
    from Cons.IH [OF this Cons.prems(2,3)]
    have "\<And>i acc. scanOutputs d info tx i outs acc = Inl unblindError" .
    then show ?thesis by (simp split: option.splits)
  qed
qed

lemma scanInputs_one_witness:
  "inp \<in> set ins \<Longrightarrow> length (in_Witness inp) = 1 \<Longrightarrow>
   \<exists>p. scanInputs d info net ins acc = Panics p"
proof (induction ins arbitrary: acc)
  case Nil
  then show ?case by simp
next
  case (Cons i1 ins)
  show ?case
  proof (cases "i1 = inp")
    case True
    with Cons.prems show ?thesis by simp
  next
    case False
    with Cons.prems have "inp \<in> set ins" by simp
    from Cons.IH [OF this Cons.prems(2)]
    have "\<And>acc. \<exists>p. scanInputs d info net ins acc = Panics p" .
    then show ?thesis by (simp split: option.splits outcome.splits)
  qed
qed


text \<open>
  On a transaction whose input loop returns, an owned output that does not unblind
  makes the whole call return the error with two nil slices, whatever the other
  outputs are.
\<close>

lemma ExtractUnspents_unblind_failure:
  assumes "NewTxFromHex d txHex = Inr tx"
    and "scanInputs d infoByScript network (Inputs tx) [] = Returns ks"
    and "out \<in> set (Outputs tx)"
    and "infoByScript (EncodeToString (out_Script out)) = Some ai"
    and "UnblindOutput d out (BlindingKey ai) = None"
  shows "ExtractUnspents d txHex infoByScript network = Returns ([], [], Some unblindError)"
proof -
  have "scanOutputs d infoByScript tx 0 (Outputs tx) [] = Inl unblindError"
    using assms(3-5) by (rule scanOutputs_fail_fast)
  with assms(1,2) show ?thesis by (simp add: ExtractUnspents_def)
qed

lemma ExtractUnspents_unblind_failure_example:
  "ExtractUnspents ex_deps ''02'' ex_info () = Returns ([], [], Some unblindError)"
  by (simp add: ExtractUnspents_def ex_defs)

text \<open>Any input with a witness stack of exactly one element makes the call panic.\<close>

lemma ExtractUnspents_one_witness_panics:
  assumes "NewTxFromHex d txHex = Inr tx" and "inp \<in> set (Inputs tx)"
    and "length (in_Witness inp) = 1"
  shows "\<exists>p. ExtractUnspents d txHex infoByScript network = Panics p"
proof -
  from scanInputs_one_witness [OF assms(2,3), of d infoByScript network "[]"]
  obtain p where "scanInputs d infoByScript network (Inputs tx) [] = Panics p" by blast
  with assms(1) show ?thesis by (simp add: ExtractUnspents_def)
qed

text \<open>
  C2. If an owned output fails to unblind, the call is to return an error and
  neither unspents nor spent keys, for every parseable transaction. On the
  transaction below the second output is owned and does not unblind with the key of
  its script, and the only input has a witness stack of one element: the call
  panics in the input loop, at \<open>in.Witness[1]\<close>, before any output is looked at, and
  returns no error.
\<close>

theorem ExtractUnspents_unblind_failure_panics:
  "NewTxFromHex ex_deps ''04'' = Inr ex_txOneWitnessBadKey \<and>
   Outputs ex_txOneWitnessBadKey ! 1 = ex_outB \<and>
   ex_info (EncodeToString (out_Script ex_outB)) = Some ex_infoB \<and>
   UnblindOutput ex_deps ex_outB (BlindingKey ex_infoB) = None \<and>
   ExtractUnspents ex_deps ''04'' ex_info () = Panics (IndexOutOfRange 1 1)"
  by (simp add: ExtractUnspents_def ex_defs)

text \<open>
  C3. The call is to return normally on every parseable transaction, also for an
  input whose witness stack has exactly one element. On the transaction below,
  whose only input carries the one-element witness stack \<open>[[0x51]]\<close>, the guard
  \<open>len(in.Witness) > 0\<close> passes and the read \<open>in.Witness[1]\<close> is out of range: the
  call panics.
\<close>

theorem ExtractUnspents_one_witness_example:
  "NewTxFromHex ex_deps ''03'' = Inr ex_txOneWitness \<and>
   map in_Witness (Inputs ex_txOneWitness) = [[[0x51]]] \<and>
   ExtractUnspents ex_deps ''03'' ex_info () = Panics (IndexOutOfRange 1 1)"
  by (simp add: ExtractUnspents_def ex_defs)

text \<open>
  C6. When the transaction hex does not parse, the call returns the parser's error
  and two nil slices, whatever the map of owned scripts is.
\<close>

theorem ExtractUnspents_parse_error:
  "NewTxFromHex d txHex = Inl err \<Longrightarrow>
   ExtractUnspents d txHex infoByScript network = Returns ([], [], Some err)"
  by (simp add: ExtractUnspents_def)

theorem ExtractUnspents_parse_error_witness:
  "NewTxFromHex ex_deps ''zz'' = Inl ''invalid transaction'' \<and>
   ExtractUnspents ex_deps ''zz'' ex_info () = Returns ([], [], Some ''invalid transaction'')"
proof -
  have h: "NewTxFromHex ex_deps ''zz'' = Inl ''invalid transaction''"
    by (simp add: ex_deps_def)
  from h ExtractUnspents_parse_error [OF h, of ex_info "()"] show ?thesis by simp
qed

lemma ex_txOk_run:
  "ExtractUnspents ex_deps ''01'' ex_info () = Returns ([ex_unspent], [ex_spentKey], None)"
  by (simp add: ExtractUnspents_def ex_defs ex_unspent_def ex_spentKey_def)









text \<open>Every unspent of a returned result was built by the struct literal from an
  owned output that unblinded with the key of its script.\<close>

lemma ExtractUnspents_member:
  assumes "ExtractUnspents d txHex infoByScript network = Returns (unspents, spentKeys, err)"
    and "u \<in> set unspents"
  shows "\<exists>tx i ai r. NewTxFromHex d txHex = Inr tx \<and> i < length (Outputs tx) \<and>
           infoByScript (EncodeToString (out_Script (Outputs tx ! i))) = Some ai \<and>
           UnblindOutput d (Outputs tx ! i) (BlindingKey ai) = Some r \<and>
           u = mkUnspent d tx i (Outputs tx ! i) ai r"
proof (cases "NewTxFromHex d txHex")
  case (Inl e)
  with assms show ?thesis by (simp add: ExtractUnspents_def)
next
  case (Inr tx)
  show ?thesis
  proof (cases "scanInputs d infoByScript network (Inputs tx) []")
    case (Panics p)
    with Inr assms show ?thesis by (simp add: ExtractUnspents_def)
  next
    case (Returns ks)
    show ?thesis
    proof (cases "scanOutputs d infoByScript tx 0 (Outputs tx) []")
      case (Inl e)
      with Inr Returns assms show ?thesis by (simp add: ExtractUnspents_def)
    next
      case inr: (Inr us)
      with Inr Returns assms have "unspents = us" by (simp add: ExtractUnspents_def)
      with assms(2) have "u \<in> set us" by simp
      from scanOutputs_member [OF inr this] obtain j ai r where
        "j < length (Outputs tx)"
        "infoByScript (EncodeToString (out_Script (Outputs tx ! j))) = Some ai"
        "UnblindOutput d (Outputs tx ! j) (BlindingKey ai) = Some r"
        "u = mkUnspent d tx (0 + j) (Outputs tx ! j) ai r" by auto
      with Inr show ?thesis by auto
    qed
  qed
qed

text \<open>
  C9. Every unspent returned by a successful call is unconfirmed and belongs to an
  output of the transaction whose script is in the map: it carries the value and the
  asset that \<open>UnblindOutput\<close> recovered with the blinding key of that entry, the
  commitments of the output's value and asset, the output's script and the address
  of the entry.
\<close>

theorem ExtractUnspents_unspent_fields:
  assumes "ExtractUnspents d txHex infoByScript network = Returns (unspents, spentKeys, None)"
    and "u \<in> set unspents"
  shows "Confirmed u = False \<and>
    (\<exists>tx i ai r. NewTxFromHex d txHex = Inr tx \<and> i < length (Outputs tx) \<and>
       infoByScript (EncodeToString (out_Script (Outputs tx ! i))) = Some ai \<and>
       UnblindOutput d (Outputs tx ! i) (BlindingKey ai) = Some r \<and>
       Value u = ur_Value r \<and> AssetHash u = ur_AssetHash r \<and>
       ValueCommitment u = CommitmentFromBytes d (out_Value (Outputs tx ! i)) \<and>
       AssetCommitment u = CommitmentFromBytes d (out_Asset (Outputs tx ! i)) \<and>
       ScriptPubKey u = out_Script (Outputs tx ! i) \<and>
       UAddress u = Address ai)"
proof -
  from ExtractUnspents_member [OF assms] obtain tx i ai r where m:
    "NewTxFromHex d txHex = Inr tx" "i < length (Outputs tx)"
    "infoByScript (EncodeToString (out_Script (Outputs tx ! i))) = Some ai"
    "UnblindOutput d (Outputs tx ! i) (BlindingKey ai) = Some r"
    and u: "u = mkUnspent d tx i (Outputs tx ! i) ai r" by blast
  have f: "Confirmed u = False" "Value u = ur_Value r" "AssetHash u = ur_AssetHash r"
    "ValueCommitment u = CommitmentFromBytes d (out_Value (Outputs tx ! i))"
    "AssetCommitment u = CommitmentFromBytes d (out_Asset (Outputs tx ! i))"
    "ScriptPubKey u = out_Script (Outputs tx ! i)" "UAddress u = Address ai"
    unfolding u by (simp_all add: mkUnspent_def)
  from m f show ?thesis by blast
qed

theorem ExtractUnspents_unspent_fields_witness:
  "ExtractUnspents ex_deps ''01'' ex_info () = Returns ([ex_unspent], [ex_spentKey], None) \<and>
   ex_unspent \<in> set [ex_unspent] \<and>
   Confirmed ex_unspent = False \<and>
   (\<exists>tx i ai r. NewTxFromHex ex_deps ''01'' = Inr tx \<and> i < length (Outputs tx) \<and>
       ex_info (EncodeToString (out_Script (Outputs tx ! i))) = Some ai \<and>
       UnblindOutput ex_deps (Outputs tx ! i) (BlindingKey ai) = Some r \<and>
       Value ex_unspent = ur_Value r \<and> AssetHash ex_unspent = ur_AssetHash r \<and>
       ValueCommitment ex_unspent = CommitmentFromBytes ex_deps (out_Value (Outputs tx ! i)) \<and>
       AssetCommitment ex_unspent = CommitmentFromBytes ex_deps (out_Asset (Outputs tx ! i)) \<and>
       ScriptPubKey ex_unspent = out_Script (Outputs tx ! i) \<and>
       UAddress ex_unspent = Address ai)"
proof -
  have mem: "ex_unspent \<in> set [ex_unspent]" by simp
  from ex_txOk_run mem ExtractUnspents_unspent_fields [OF ex_txOk_run mem]
  show ?thesis by (intro conjI) blast+
qed

text \<open>
  C10. In every unspent of a returned result the range proof and the surjection
  proof are the one-byte slice \<open>[0]\<close> made by \<open>make([]byte, 1)\<close>, whatever proofs
  the output of the transaction carries.
\<close>

theorem ExtractUnspents_placeholder_proofs:
  assumes "ExtractUnspents d txHex infoByScript network = Returns (unspents, spentKeys, err)"
    and "u \<in> set unspents"
  shows "RangeProof u = [0] \<and> SurjectionProof u = [0]"
proof -
  from ExtractUnspents_member [OF assms] obtain tx i ai r where
    "u = mkUnspent d tx i (Outputs tx ! i) ai r" by blast
  then show ?thesis by (simp add: mkUnspent_def)
qed

theorem ExtractUnspents_placeholder_proofs_witness:
  "ExtractUnspents ex_deps ''01'' ex_info () = Returns ([ex_unspent], [ex_spentKey], None) \<and>
   ex_unspent \<in> set [ex_unspent] \<and>
   RangeProof ex_unspent = [0] \<and> SurjectionProof ex_unspent = [0] \<and>
   Outputs ex_txOk ! 1 = ex_outA \<and> out_RangeProof ex_outA = [1, 2, 3] \<and>
   out_SurjectionProof ex_outA = [4, 5]"
proof -
  have mem: "ex_unspent \<in> set [ex_unspent]" by simp
  have "Outputs ex_txOk ! 1 = ex_outA \<and> out_RangeProof ex_outA = [1, 2, 3] \<and>
    out_SurjectionProof ex_outA = [4, 5]" by (simp add: ex_txOk_def ex_outA_def)
  with ex_txOk_run mem ExtractUnspents_placeholder_proofs [OF ex_txOk_run mem]
  show ?thesis by blast
qed

section \<open>Properties of \<open>ExtractBlindingData\<close>\<close>

lemma convertMap_id: "convertMap m = m"
proof (cases m)
  case None
  then show ?thesis by (simp add: convertMap_def)
next
  case (Some f)
  have "(\<lambda>i. case f i of None \<Rightarrow> None
               | Some d \<Rightarrow> Some \<lparr>bd_Asset = bd_Asset d, bd_Amount = bd_Amount d,
                   bd_AssetBlinder = bd_AssetBlinder d,
                   bd_AmountBlinder = bd_AmountBlinder d\<rparr>) = f"
    by (rule ext) (simp split: option.splits)
  with Some show ?thesis by (simp add: convertMap_def)
qed

lemma keyedIndices_iff:
  "k \<in> keyedIndices keys es \<longleftrightarrow>
     (\<exists>j. k = int j \<and> j < length es \<and> keys (pe_Ident (es ! j)) \<noteq> None)"
  by (auto simp: keyedIndices_def)

text \<open>The indices from \<open>i\<close> on of the entries with a key, the way the loop counts them.\<close>

lemma unblindEntries_ok:
  assumes "keyedUnblind unblind keys es"
  shows "\<exists>m. unblindEntries unblind keys i es acc = Inr m \<and>
           dom m = dom acc \<union>
             {int (i + j) |j. j < length es \<and> keys (pe_Ident (es ! j)) \<noteq> None}"
  using assms
proof (induction es arbitrary: i acc)
  case Nil
  then show ?case by simp
next
  case (Cons e es)
  from Cons.prems have rest: "keyedUnblind unblind keys es"
    by (simp add: keyedUnblind_def)
  let ?S = "\<lambda>i es. {int (i + j) |j. j < length es \<and> keys (pe_Ident (es ! j)) \<noteq> None}"
  have split: "?S i (e # es) = (if keys (pe_Ident e) \<noteq> None then {int i} else {}) \<union> ?S (Suc i) es"
  proof (intro set_eqI iffI)
    fix k assume "k \<in> ?S i (e # es)"
    then obtain j where j: "k = int (i + j)" "j < length (e # es)"
      "keys (pe_Ident ((e # es) ! j)) \<noteq> None" by blast
    show "k \<in> (if keys (pe_Ident e) \<noteq> None then {int i} else {}) \<union> ?S (Suc i) es"
    proof (cases j)
      case 0
      with j show ?thesis by simp
    next
      case (Suc j')
      with j have "k = int (Suc i + j') \<and> j' < length es \<and> keys (pe_Ident (es ! j')) \<noteq> None"
        by simp
      then have "k \<in> ?S (Suc i) es" by blast
      then show ?thesis by simp
    qed
  next
    fix k assume "k \<in> (if keys (pe_Ident e) \<noteq> None then {int i} else {}) \<union> ?S (Suc i) es"
    then consider "keys (pe_Ident e) \<noteq> None" "k = int i" | "k \<in> ?S (Suc i) es"
      by (auto split: if_splits)
    then show "k \<in> ?S i (e # es)"
    proof cases
      case 1
      then have "k = int (i + 0) \<and> 0 < length (e # es) \<and> keys (pe_Ident ((e # es) ! 0)) \<noteq> None"
        by simp
      then show ?thesis by blast
    next
      case 2
      then obtain j' where "k = int (Suc i + j')" "j' < length es"
        "keys (pe_Ident (es ! j')) \<noteq> None" by blast
      then have "k = int (i + Suc j') \<and> Suc j' < length (e # es) \<and>
        keys (pe_Ident ((e # es) ! Suc j')) \<noteq> None" by simp
      then show ?thesis by blast
    qed
  qed
  show ?case
  proof (cases "keys (pe_Ident e)")
    case None
    from Cons.IH [OF rest, of "Suc i" acc] obtain m where
      m: "unblindEntries unblind keys (Suc i) es acc = Inr m" "dom m = dom acc \<union> ?S (Suc i) es"
      by blast
    from m(1) None have "unblindEntries unblind keys i (e # es) acc = Inr m" by simp
    moreover from m(2) None split have "dom m = dom acc \<union> ?S i (e # es)" by simp
    ultimately show ?thesis by blast
  next
    case (Some key)
    with Cons.prems obtain r where r: "unblind (pe_Output e) key = Some r"
      by (auto simp: keyedUnblind_def)
    from Cons.IH [OF rest, of "Suc i" "acc(int i \<mapsto> toBlindingData r)"] obtain m where
      m: "unblindEntries unblind keys (Suc i) es (acc(int i \<mapsto> toBlindingData r)) = Inr m"
        "dom m = dom (acc(int i \<mapsto> toBlindingData r)) \<union> ?S (Suc i) es"
      by blast
    from m(1) Some r have "unblindEntries unblind keys i (e # es) acc = Inr m" by simp
    moreover from m(2) Some split have "dom m = dom acc \<union> ?S i (e # es)" by auto
    ultimately show ?thesis by blast
  qed
qed

lemma unblindEntries_fail:
  assumes "\<not> keyedUnblind unblind keys es"
  shows "unblindEntries unblind keys i es acc = Inl unblindError"
  using assms
proof (induction es arbitrary: i acc)
  case Nil
  then show ?case by (simp add: keyedUnblind_def)
next
  case (Cons e es)
  show ?case
  proof (cases "keys (pe_Ident e)")
    case None
    with Cons.prems have "\<not> keyedUnblind unblind keys es" by (simp add: keyedUnblind_def)
    from Cons.IH [OF this] None show ?thesis by simp
  next
    case (Some key)
    show ?thesis
    proof (cases "unblind (pe_Output e) key")
      case None
      with Some show ?thesis by simp
    next
      case (Some r)
      with \<open>keys (pe_Ident e) = Some key\<close> Cons.prems
      have "\<not> keyedUnblind unblind keys es" by (simp add: keyedUnblind_def)
      from Cons.IH [OF this] Some \<open>keys (pe_Ident e) = Some key\<close> show ?thesis by simp
    qed
  qed
qed

lemma unblindEntries_keyed:
  assumes "keyedUnblind unblind keys es"
  shows "\<exists>m. unblindEntries unblind keys 0 es Map.empty = Inr m \<and> dom m = keyedIndices keys es"
proof -
  from unblindEntries_ok [OF assms, of 0 Map.empty] obtain m where
    m: "unblindEntries unblind keys 0 es Map.empty = Inr m"
    "dom m = dom (Map.empty :: int \<rightharpoonup> BlindingData) \<union>
       {int (0 + j) |j. j < length es \<and> keys (pe_Ident (es ! j)) \<noteq> None}" by blast
  have "dom m = keyedIndices keys es"
  proof (intro set_eqI iffI)
    fix k assume "k \<in> dom m"
    with m(2) show "k \<in> keyedIndices keys es" by (auto simp: keyedIndices_iff)
  next
    fix k assume "k \<in> keyedIndices keys es"
    then obtain j where "k = int j" "j < length es" "keys (pe_Ident (es ! j)) \<noteq> None"
      by (auto simp: keyedIndices_iff)
    then have "k \<in> {int (0 + j) |j. j < length es \<and> keys (pe_Ident (es ! j)) \<noteq> None}"
      by auto
    with m(2) show "k \<in> dom m" by simp
  qed
  with m(1) show ?thesis by blast
qed

text \<open>What the modelled wallet routine returns on a transaction that parses.\<close>

lemma ExtractBlindingDataFromTx_parsed:
  assumes "newPset psetBase64 = Inr ptx"
  shows "if keyedUnblind unblind inKeys (ps_Inputs ptx) \<and>
            keyedUnblind unblind outKeys (ps_Outputs ptx)
         then \<exists>inData outData.
                ExtractBlindingDataFromTx newPset unblind psetBase64 inKeys outKeys =
                  (Some inData, Some outData, None) \<and>
                dom inData = keyedIndices inKeys (ps_Inputs ptx) \<and>
                dom outData = keyedIndices outKeys (ps_Outputs ptx)
         else ExtractBlindingDataFromTx newPset unblind psetBase64 inKeys outKeys =
                (None, None, Some unblindError)"
proof (cases "keyedUnblind unblind inKeys (ps_Inputs ptx)")
  case False
  from unblindEntries_fail [OF this] assms False show ?thesis
    by (simp add: ExtractBlindingDataFromTx_def)
next
  case True
  from unblindEntries_keyed [OF True] obtain inData where
    i: "unblindEntries unblind inKeys 0 (ps_Inputs ptx) Map.empty = Inr inData"
    "dom inData = keyedIndices inKeys (ps_Inputs ptx)" by blast
  show ?thesis
  proof (cases "keyedUnblind unblind outKeys (ps_Outputs ptx)")
    case False
    from unblindEntries_fail [OF this] assms i False show ?thesis
      by (simp add: ExtractBlindingDataFromTx_def)
  next
    case out: True
    from unblindEntries_keyed [OF out] obtain outData where
      o: "unblindEntries unblind outKeys 0 (ps_Outputs ptx) Map.empty = Inr outData"
      "dom outData = keyedIndices outKeys (ps_Outputs ptx)" by blast
    from assms i o have
      "ExtractBlindingDataFromTx newPset unblind psetBase64 inKeys outKeys =
         (Some inData, Some outData, None)"
      by (simp add: ExtractBlindingDataFromTx_def)
    with i(2) o(2) True out show ?thesis by simp
  qed
qed

text \<open>
  The method itself, whatever routine it is given: an error of the routine comes
  back with two nil maps, also when the routine returned maps along with it.
\<close>

lemma ExtractBlindingData_error:
  assumes "extract psetBase64 inKeys outKeys = (inp, out, Some err)"
  shows "ExtractBlindingData extract psetBase64 inKeys outKeys = (None, None, Some err)"
  using assms by (simp add: ExtractBlindingData_def)

lemma ExtractBlindingData_success:
  assumes "extract psetBase64 inKeys outKeys = (inp, out, None)"
  shows "ExtractBlindingData extract psetBase64 inKeys outKeys = (inp, out, None)"
  using assms by (simp add: ExtractBlindingData_def convertMap_id)

text \<open>
  C7. When the partially signed transaction does not parse, the call returns the
  parser's error and two nil maps, which have no entries. When it parses, the
  outcome is decided by the indices with a supplied key alone: if each of them
  unblinds with its key, there is no error and the two maps have an entry exactly at
  the indices with a key, so an index without a key has no entry and raises no
  error; otherwise the call returns the unblind error and two nil maps.
\<close>

theorem ExtractBlindingData_keyed_indices:
  "(\<forall>err. newPset psetBase64 = Inl err \<longrightarrow>
      (\<exists>inData outData.
         ExtractBlindingData (ExtractBlindingDataFromTx newPset unblind) psetBase64 inKeys outKeys =
           (inData, outData, Some err) \<and>
         inData = None \<and> outData = None \<and>
         entries inData = Map.empty \<and> entries outData = Map.empty)) \<and>
   (\<forall>ptx. newPset psetBase64 = Inr ptx \<longrightarrow>
      (if keyedUnblind unblind inKeys (ps_Inputs ptx) \<and>
          keyedUnblind unblind outKeys (ps_Outputs ptx)
       then \<exists>inData outData.
              ExtractBlindingData (ExtractBlindingDataFromTx newPset unblind) psetBase64
                inKeys outKeys = (inData, outData, None) \<and>
              dom (entries inData) = keyedIndices inKeys (ps_Inputs ptx) \<and>
              dom (entries outData) = keyedIndices outKeys (ps_Outputs ptx)
       else ExtractBlindingData (ExtractBlindingDataFromTx newPset unblind) psetBase64
              inKeys outKeys = (None, None, Some unblindError)))"
proof (intro conjI allI impI)
  fix err assume "newPset psetBase64 = Inl err"
  then have "ExtractBlindingData (ExtractBlindingDataFromTx newPset unblind) psetBase64
      inKeys outKeys = (None, None, Some err)"
    by (simp add: ExtractBlindingData_def ExtractBlindingDataFromTx_def)
  moreover have "entries None = Map.empty" by (simp add: entries_def)
  ultimately show "\<exists>inData outData.
         ExtractBlindingData (ExtractBlindingDataFromTx newPset unblind) psetBase64 inKeys outKeys =
           (inData, outData, Some err) \<and>
         inData = None \<and> outData = None \<and>
         entries inData = Map.empty \<and> entries outData = Map.empty" by blast
next
  fix ptx assume p: "newPset psetBase64 = Inr ptx"
  show "if keyedUnblind unblind inKeys (ps_Inputs ptx) \<and>
          keyedUnblind unblind outKeys (ps_Outputs ptx)
       then \<exists>inData outData.
              ExtractBlindingData (ExtractBlindingDataFromTx newPset unblind) psetBase64
                inKeys outKeys = (inData, outData, None) \<and>
              dom (entries inData) = keyedIndices inKeys (ps_Inputs ptx) \<and>
              dom (entries outData) = keyedIndices outKeys (ps_Outputs ptx)
       else ExtractBlindingData (ExtractBlindingDataFromTx newPset unblind) psetBase64
              inKeys outKeys = (None, None, Some unblindError)"
  proof (cases "keyedUnblind unblind inKeys (ps_Inputs ptx) \<and>
          keyedUnblind unblind outKeys (ps_Outputs ptx)")
    case True
    with ExtractBlindingDataFromTx_parsed [of newPset psetBase64 ptx unblind inKeys outKeys, OF p]
    obtain inData outData where w:
      "ExtractBlindingDataFromTx newPset unblind psetBase64 inKeys outKeys =
         (Some inData, Some outData, None)"
      "dom inData = keyedIndices inKeys (ps_Inputs ptx)"
      "dom outData = keyedIndices outKeys (ps_Outputs ptx)" by auto
    from w(1) have "ExtractBlindingData (ExtractBlindingDataFromTx newPset unblind) psetBase64
        inKeys outKeys = (Some inData, Some outData, None)"
      by (simp add: ExtractBlindingData_def convertMap_id)
    moreover have "dom (entries (Some inData)) = keyedIndices inKeys (ps_Inputs ptx)"
      "dom (entries (Some outData)) = keyedIndices outKeys (ps_Outputs ptx)"
      using w(2,3) by (simp_all add: entries_def)
    ultimately show ?thesis using True by auto
  next
    case False
    with ExtractBlindingDataFromTx_parsed [of newPset psetBase64 ptx unblind inKeys outKeys, OF p]
    have "ExtractBlindingDataFromTx newPset unblind psetBase64 inKeys outKeys =
         (None, None, Some unblindError)" by auto
    then have "ExtractBlindingData (ExtractBlindingDataFromTx newPset unblind) psetBase64
        inKeys outKeys = (None, None, Some unblindError)"
      by (simp add: ExtractBlindingData_def)
    with False show ?thesis by auto
  qed
qed

theorem ExtractBlindingData_keyed_indices_witness:
  "ex_newPset ''cHNldP8='' = Inr ex_pset \<and>
   keyedUnblind ex_unblind ex_inKeys (ps_Inputs ex_pset) \<and>
   keyedUnblind ex_unblind ex_outKeys (ps_Outputs ex_pset) \<and>
   ex_inKeys (pe_Ident (ps_Inputs ex_pset ! 1)) = None \<and>
   (\<exists>inData outData.
      ExtractBlindingData (ExtractBlindingDataFromTx ex_newPset ex_unblind) ''cHNldP8=''
        ex_inKeys ex_outKeys = (inData, outData, None) \<and>
      dom (entries inData) = {0} \<and> dom (entries outData) = {0}) \<and>
   ex_newPset ''?'' = Inl ''invalid pset'' \<and>
   (\<exists>inData outData.
      ExtractBlindingData (ExtractBlindingDataFromTx ex_newPset ex_unblind) ''?''
        ex_inKeys ex_outKeys = (inData, outData, Some ''invalid pset'') \<and>
      entries inData = Map.empty \<and> entries outData = Map.empty)"
proof -
  have p: "ex_newPset ''cHNldP8='' = Inr ex_pset" by (simp add: ex_newPset_def)
  have ki: "keyedUnblind ex_unblind ex_inKeys (ps_Inputs ex_pset)"
    by (simp add: keyedUnblind_def ex_pset_def ex_inKeys_def ex_unblind_def ex_outA_def)
  have ko: "keyedUnblind ex_unblind ex_outKeys (ps_Outputs ex_pset)"
    by (simp add: keyedUnblind_def ex_pset_def ex_outKeys_def ex_unblind_def ex_outC_def)
  have nk: "ex_inKeys (pe_Ident (ps_Inputs ex_pset ! 1)) = None"
    by (simp add: ex_pset_def ex_inKeys_def)
  have di: "keyedIndices ex_inKeys (ps_Inputs ex_pset) = {0}"
    by (simp add: keyedIndices_def ex_pset_def ex_inKeys_def upt_rec)
  have do: "keyedIndices ex_outKeys (ps_Outputs ex_pset) = {0}"
    by (simp add: keyedIndices_def ex_pset_def ex_outKeys_def)
  have q: "ex_newPset ''?'' = Inl ''invalid pset''" by (simp add: ex_newPset_def)
  from ExtractBlindingData_keyed_indices
    [of ex_newPset "''cHNldP8=''" ex_unblind ex_inKeys ex_outKeys] p ki ko di do
  have 1: "\<exists>inData outData.
      ExtractBlindingData (ExtractBlindingDataFromTx ex_newPset ex_unblind) ''cHNldP8=''
        ex_inKeys ex_outKeys = (inData, outData, None) \<and>
      dom (entries inData) = {0} \<and> dom (entries outData) = {0}" by simp
  from ExtractBlindingData_keyed_indices
    [of ex_newPset "''?''" ex_unblind ex_inKeys ex_outKeys] q
  have 2: "\<exists>inData outData.
      ExtractBlindingData (ExtractBlindingDataFromTx ex_newPset ex_unblind) ''?''
        ex_inKeys ex_outKeys = (inData, outData, Some ''invalid pset'') \<and>
      entries inData = Map.empty \<and> entries outData = Map.empty" by simp
  from p ki ko nk 1 q 2 show ?thesis by (intro conjI)
qed

section \<open>Properties of the fill proposal builder\<close>

lemma subseq_strict_sorted:
  "subseq ys xs \<Longrightarrow> sorted_wrt (<) (xs :: nat list) \<Longrightarrow> sorted_wrt (<) ys \<and> set ys \<subseteq> set xs"
proof (induction rule: list_emb.induct)
  case (list_emb_Nil ys)
  then show ?case by simp
next
  case (list_emb_Cons xs ys y)
  then show ?case by auto
next
  case (list_emb_Cons2 x y xs ys)
  then show ?case by auto
qed

lemma candidates_iff:
  "sel \<in> set (candidates utxos asset) \<longleftrightarrow>
     sorted_wrt (<) sel \<and> (\<forall>i\<in>set sel. i < length utxos \<and> AssetHash (utxos ! i) = asset)"
proof -
  let ?pool = "filter (\<lambda>i. AssetHash (utxos ! i) = asset) [0..<length utxos]"
  have pool: "sorted_wrt (<) ?pool"
    by (simp add: sorted_wrt_filter strict_sorted_iff)
  show ?thesis
  proof
    assume "sel \<in> set (candidates utxos asset)"
    then have "subseq sel ?pool" by (simp add: candidates_def)
    from subseq_strict_sorted [OF this pool]
    show "sorted_wrt (<) sel \<and> (\<forall>i\<in>set sel. i < length utxos \<and> AssetHash (utxos ! i) = asset)"
      by auto
  next
    assume a: "sorted_wrt (<) sel \<and> (\<forall>i\<in>set sel. i < length utxos \<and> AssetHash (utxos ! i) = asset)"
    then have "set sel \<subseteq> set ?pool" by auto
    moreover have "sorted_wrt (\<le>) ?pool"
      using pool by (simp add: strict_sorted_iff)
    ultimately have "subseq sel ?pool"
      using a by (simp add: sorted_subset_imp_subseq)
    then show "sel \<in> set (candidates utxos asset)" by (simp add: candidates_def)
  qed
qed

lemma rank_less_iff:
  "rank utxos amount a < rank utxos amount b \<longleftrightarrow>
     leftover utxos amount a < leftover utxos amount b \<or>
     (leftover utxos amount a = leftover utxos amount b \<and>
        (length a < length b \<or> (length a = length b \<and> a < b)))"
  by (auto simp: rank_def)

lemma rank_inj: "rank utxos amount a = rank utxos amount b \<Longrightarrow> a = b"
  by (simp add: rank_def)

lemma best_in: "best utxos amount cs cur \<in> set (cur # cs)"
  by (induction cs arbitrary: cur) auto

lemma best_le:
  "c \<in> set (cur # cs) \<Longrightarrow> rank utxos amount (best utxos amount cs cur) \<le> rank utxos amount c"
proof (induction cs arbitrary: cur c)
  case Nil
  then show ?case by simp
next
  case (Cons c1 cs)
  let ?cur' = "if rank utxos amount c1 < rank utxos amount cur then c1 else cur"
  have step: "best utxos amount (c1 # cs) cur = best utxos amount cs ?cur'" by simp
  have le_cur: "rank utxos amount (best utxos amount cs ?cur') \<le> rank utxos amount ?cur'"
    by (rule Cons.IH) simp
  from Cons.prems consider "c = cur" | "c = c1" | "c \<in> set cs" by auto
  then show ?case
  proof cases
    case 1
    have "rank utxos amount ?cur' \<le> rank utxos amount cur"
      by (simp add: less_imp_le)
    with le_cur 1 step show ?thesis by (metis order_trans)
  next
    case 2
    have "rank utxos amount ?cur' \<le> rank utxos amount c1"
      by (simp add: not_less)
    with le_cur 2 step show ?thesis by (metis order_trans)
  next
    case 3
    then have "c \<in> set (?cur' # cs)" by simp
    from Cons.IH [OF this] step show ?thesis by simp
  qed
qed

lemma selectUtxos_None_iff:
  "selectUtxos utxos asset amount = None \<longleftrightarrow>
     (\<forall>c\<in>set (candidates utxos asset). \<not> covers utxos amount c)"
proof -
  have "selectUtxos utxos asset amount = None \<longleftrightarrow>
          filter (covers utxos amount) (candidates utxos asset) = []"
    by (simp add: selectUtxos_def split: list.splits)
  then show ?thesis by (simp add: filter_empty_conv)
qed

lemma selectUtxos_Some:
  assumes "selectUtxos utxos asset amount = Some sel"
  shows "sel \<in> set (candidates utxos asset)" and "covers utxos amount sel"
    and "c \<in> set (candidates utxos asset) \<Longrightarrow> covers utxos amount c \<Longrightarrow>
           rank utxos amount sel \<le> rank utxos amount c"
proof -
  from assms obtain c0 cs where f: "filter (covers utxos amount) (candidates utxos asset) = c0 # cs"
    and sel: "sel = best utxos amount cs c0"
    by (auto simp: selectUtxos_def split: list.splits)
  have "sel \<in> set (c0 # cs)" unfolding sel by (rule best_in)
  then have "sel \<in> set (filter (covers utxos amount) (candidates utxos asset))"
    using f by simp
  then show "sel \<in> set (candidates utxos asset)" and "covers utxos amount sel" by simp_all
  assume "c \<in> set (candidates utxos asset)" "covers utxos amount c"
  then have "c \<in> set (filter (covers utxos amount) (candidates utxos asset))" by simp
  then have "c \<in> set (c0 # cs)" using f by simp
  then show "rank utxos amount sel \<le> rank utxos amount c" unfolding sel by (rule best_le)
qed


lemma coveringSubset_iff:
  "coveringSubset utxos asset amount sel \<longleftrightarrow>
     sel \<in> set (candidates utxos asset) \<and> covers utxos amount sel"
  by (simp add: coveringSubset_def candidates_iff covers_def)

lemma selectUtxos_None:
  "(\<forall>sel. \<not> coveringSubset utxos asset amount sel) \<Longrightarrow> selectUtxos utxos asset amount = None"
  by (simp add: selectUtxos_None_iff coveringSubset_iff)

lemma selectUtxos_optimal:
  assumes "selectUtxos utxos asset amount = Some sel"
  shows "coveringSubset utxos asset amount sel"
    and "coveringSubset utxos asset amount c \<Longrightarrow> c \<noteq> sel \<Longrightarrow>
           leftover utxos amount sel < leftover utxos amount c \<or>
           (leftover utxos amount sel = leftover utxos amount c \<and>
              (length sel < length c \<or> (length sel = length c \<and> sel < c)))"
proof -
  show "coveringSubset utxos asset amount sel"
    using selectUtxos_Some(1,2) [OF assms] by (simp add: coveringSubset_iff)
  assume c: "coveringSubset utxos asset amount c" "c \<noteq> sel"
  then have "rank utxos amount sel \<le> rank utxos amount c"
    using selectUtxos_Some(3) [OF assms] by (simp add: coveringSubset_iff)
  moreover have "rank utxos amount sel \<noteq> rank utxos amount c"
    using c(2) rank_inj by blast
  ultimately have "rank utxos amount sel < rank utxos amount c" by simp
  then show "leftover utxos amount sel < leftover utxos amount c \<or>
           (leftover utxos amount sel = leftover utxos amount c \<and>
              (length sel < length c \<or> (length sel = length c \<and> sel < c)))"
    by (simp add: rank_less_iff)
qed

text \<open>The fee leg: when the market covers the request and the fee pool has no
  covering subset, the builder returns the insufficient-fee-funds error.\<close>

lemma Fill_insufficient_fee_funds:
  assumes "marketSelection opts = Some sel"
    and "\<forall>feeSel. \<not> coveringSubset (FeeUtxos opts) feeAsset feeAmount feeSel"
  shows "Fill construct feeAsset feeAmount opts = Inl InsufficientFeeFundsError"
  using assms(1) selectUtxos_None [OF assms(2)] by (simp add: Fill_def)

text \<open>A market without any UTXO of the requested asset covers no positive amount.\<close>

lemma no_utxo_of_asset:
  assumes "\<forall>u\<in>set utxos. AssetHash u \<noteq> asset" and "0 < amount"
  shows "\<not> coveringSubset utxos asset amount sel"
proof
  assume c: "coveringSubset utxos asset amount sel"
  have "sel = []"
  proof (cases sel)
    case Nil
    then show ?thesis .
  next
    case (Cons i rest)
    with c have "i < length utxos" "AssetHash (utxos ! i) = asset"
      by (simp_all add: coveringSubset_def)
    with assms(1) show ?thesis by (metis nth_mem)
  qed
  with c assms(2) show False by (simp add: coveringSubset_def pick_def sumValues_def)
qed

text \<open>
  C4. The selection of the market leg is fixed by the request and by the list of
  market UTXOs in its order: it is a covering subset that comes strictly before
  every other covering subset in the order "smaller leftover, then fewer inputs,
  then the earlier position at the first difference", so it is the only such
  subset, any call with the same request and the same list selects it, and it is
  what the builder hands on to the construction.
\<close>

theorem Fill_selection_deterministic:
  assumes "marketSelection opts = Some sel"
  shows "coveringSubset (MarketUtxos opts) (AssetR (SwapRequest opts))
           (unat (AmountR (SwapRequest opts))) sel \<and>
    (\<forall>c. coveringSubset (MarketUtxos opts) (AssetR (SwapRequest opts))
           (unat (AmountR (SwapRequest opts))) c \<and> c \<noteq> sel \<longrightarrow>
         leftover (MarketUtxos opts) (unat (AmountR (SwapRequest opts))) sel
           < leftover (MarketUtxos opts) (unat (AmountR (SwapRequest opts))) c \<or>
         (leftover (MarketUtxos opts) (unat (AmountR (SwapRequest opts))) sel
            = leftover (MarketUtxos opts) (unat (AmountR (SwapRequest opts))) c \<and>
          (length sel < length c \<or> (length sel = length c \<and> sel < c)))) \<and>
    (\<forall>opts'. SwapRequest opts' = SwapRequest opts \<and> MarketUtxos opts' = MarketUtxos opts \<longrightarrow>
         marketSelection opts' = Some sel) \<and>
    FillProposal (Fill construct feeAsset feeAmount) opts =
      (case selectUtxos (FeeUtxos opts) feeAsset feeAmount of
         None \<Rightarrow> Inl InsufficientFeeFundsError
       | Some feeSel \<Rightarrow>
           construct opts (pick (MarketUtxos opts) sel) (pick (FeeUtxos opts) feeSel))"
proof -
  from assms have s: "selectUtxos (MarketUtxos opts) (AssetR (SwapRequest opts))
      (unat (AmountR (SwapRequest opts))) = Some sel"
    by (simp add: marketSelection_def)
  have 1: "coveringSubset (MarketUtxos opts) (AssetR (SwapRequest opts))
           (unat (AmountR (SwapRequest opts))) sel"
    by (rule selectUtxos_optimal(1) [OF s])
  have 2: "\<forall>c. coveringSubset (MarketUtxos opts) (AssetR (SwapRequest opts))
           (unat (AmountR (SwapRequest opts))) c \<and> c \<noteq> sel \<longrightarrow>
         leftover (MarketUtxos opts) (unat (AmountR (SwapRequest opts))) sel
           < leftover (MarketUtxos opts) (unat (AmountR (SwapRequest opts))) c \<or>
         (leftover (MarketUtxos opts) (unat (AmountR (SwapRequest opts))) sel
            = leftover (MarketUtxos opts) (unat (AmountR (SwapRequest opts))) c \<and>
          (length sel < length c \<or> (length sel = length c \<and> sel < c)))"
    using selectUtxos_optimal(2) [OF s] by blast
  have 3: "\<forall>opts'. SwapRequest opts' = SwapRequest opts \<and> MarketUtxos opts' = MarketUtxos opts \<longrightarrow>
         marketSelection opts' = Some sel"
    using s by (simp add: marketSelection_def)
  have 4: "FillProposal (Fill construct feeAsset feeAmount) opts =
      (case selectUtxos (FeeUtxos opts) feeAsset feeAmount of
         None \<Rightarrow> Inl InsufficientFeeFundsError
       | Some feeSel \<Rightarrow>
           construct opts (pick (MarketUtxos opts) sel) (pick (FeeUtxos opts) feeSel))"
    using assms by (simp add: FillProposal_def Fill_def)
  from 1 2 3 4 show ?thesis by (intro conjI)
qed

lemma ex_opts_selection: "marketSelection ex_opts = Some [3]"
  by (simp add: marketSelection_def selectUtxos_def candidates_def covers_def rank_def
      leftover_def pick_def sumValues_def ex_opts_def ex_pool_def ex_utxo_def upt_rec)

theorem Fill_selection_deterministic_witness:
  "marketSelection ex_opts = Some [3] \<and>
   coveringSubset (MarketUtxos ex_opts) (AssetR (SwapRequest ex_opts))
     (unat (AmountR (SwapRequest ex_opts))) [3] \<and>
   coveringSubset (MarketUtxos ex_opts) (AssetR (SwapRequest ex_opts))
     (unat (AmountR (SwapRequest ex_opts))) [0, 2] \<and>
   (leftover (MarketUtxos ex_opts) (unat (AmountR (SwapRequest ex_opts))) [3]
      < leftover (MarketUtxos ex_opts) (unat (AmountR (SwapRequest ex_opts))) [0, 2] \<or>
    (leftover (MarketUtxos ex_opts) (unat (AmountR (SwapRequest ex_opts))) [3]
       = leftover (MarketUtxos ex_opts) (unat (AmountR (SwapRequest ex_opts))) [0, 2] \<and>
     (length [3::nat] < length [0, 2::nat] \<or>
      (length [3::nat] = length [0, 2::nat] \<and> [3::nat] < [0, 2])))) \<and>
   marketSelection (ex_opts\<lparr>FeeUtxos := []\<rparr>) = Some [3] \<and>
   FillProposal (Fill ex_construct ''fe'' 550) ex_opts =
     Inr \<lparr>PsetBase64 = ''cHNldP8='',
          SelectedUnspents = [ex_utxo 3 50 ''a5'', ex_utxo 5 600 ''fe''],
          InputBlindingKeys = Map.empty, OutputBlindingKeys = Map.empty\<rparr>"
proof -
  note inst = Fill_selection_deterministic [OF ex_opts_selection, of ex_construct "''fe''" 550]
  have other: "coveringSubset (MarketUtxos ex_opts) (AssetR (SwapRequest ex_opts))
     (unat (AmountR (SwapRequest ex_opts))) [0, 2]"
    by (simp add: coveringSubset_def pick_def sumValues_def ex_opts_def ex_pool_def ex_utxo_def)
  have fee: "selectUtxos (FeeUtxos ex_opts) ''fe'' 550 = Some [0]"
    by (simp add: selectUtxos_def candidates_def covers_def rank_def leftover_def pick_def
        sumValues_def ex_opts_def ex_utxo_def upt_rec)
  have 1: "coveringSubset (MarketUtxos ex_opts) (AssetR (SwapRequest ex_opts))
     (unat (AmountR (SwapRequest ex_opts))) [3]"
    using inst by blast
  have 2: "leftover (MarketUtxos ex_opts) (unat (AmountR (SwapRequest ex_opts))) [3]
      < leftover (MarketUtxos ex_opts) (unat (AmountR (SwapRequest ex_opts))) [0, 2] \<or>
    (leftover (MarketUtxos ex_opts) (unat (AmountR (SwapRequest ex_opts))) [3]
       = leftover (MarketUtxos ex_opts) (unat (AmountR (SwapRequest ex_opts))) [0, 2] \<and>
     (length [3::nat] < length [0, 2::nat] \<or>
      (length [3::nat] = length [0, 2::nat] \<and> [3::nat] < [0, 2])))"
  proof -
    have "[0, 2] \<noteq> [3::nat]" by simp
    with inst other show ?thesis by blast
  qed
  have 3: "marketSelection (ex_opts\<lparr>FeeUtxos := []\<rparr>) = Some [3]"
  proof -
    have "SwapRequest (ex_opts\<lparr>FeeUtxos := []\<rparr>) = SwapRequest ex_opts \<and>
      MarketUtxos (ex_opts\<lparr>FeeUtxos := []\<rparr>) = MarketUtxos ex_opts" by simp
    with inst show ?thesis by blast
  qed
  have 4: "FillProposal (Fill ex_construct ''fe'' 550) ex_opts =
     Inr \<lparr>PsetBase64 = ''cHNldP8='',
          SelectedUnspents = [ex_utxo 3 50 ''a5'', ex_utxo 5 600 ''fe''],
          InputBlindingKeys = Map.empty, OutputBlindingKeys = Map.empty\<rparr>"
  proof -
    from inst have "FillProposal (Fill ex_construct ''fe'' 550) ex_opts =
      (case selectUtxos (FeeUtxos ex_opts) ''fe'' 550 of
         None \<Rightarrow> Inl InsufficientFeeFundsError
       | Some feeSel \<Rightarrow>
           ex_construct ex_opts (pick (MarketUtxos ex_opts) [3]) (pick (FeeUtxos ex_opts) feeSel))"
      by blast
    with fee show ?thesis
      by (simp add: ex_construct_def pick_def ex_opts_def ex_pool_def)
  qed
  from ex_opts_selection 1 other 2 3 4 show ?thesis by (intro conjI)
qed

text \<open>
  C5. When no subset of the market UTXOs of the requested asset covers the
  requested amount, the call returns the insufficient-funds error and no proposal,
  and this error is not the insufficient-fee-funds error of the fee leg.
\<close>

theorem Fill_insufficient_funds:
  assumes "\<forall>sel. \<not> coveringSubset (MarketUtxos opts) (AssetR (SwapRequest opts))
             (unat (AmountR (SwapRequest opts))) sel"
  shows "FillProposal (Fill construct feeAsset feeAmount) opts = Inl InsufficientFundsError \<and>
    (\<forall>res. FillProposal (Fill construct feeAsset feeAmount) opts \<noteq> Inr res) \<and>
    InsufficientFundsError \<noteq> InsufficientFeeFundsError"
proof -
  from selectUtxos_None [OF assms] have "marketSelection opts = None"
    by (simp add: marketSelection_def)
  then have "FillProposal (Fill construct feeAsset feeAmount) opts = Inl InsufficientFundsError"
    by (simp add: FillProposal_def Fill_def)
  then show ?thesis by simp
qed

theorem Fill_insufficient_funds_witness:
  "AssetR (SwapRequest ex_optsEmpty) \<notin> set (map AssetHash (MarketUtxos ex_optsEmpty)) \<and>
   0 < unat (AmountR (SwapRequest ex_optsEmpty)) \<and>
   (\<forall>sel. \<not> coveringSubset (MarketUtxos ex_optsEmpty) (AssetR (SwapRequest ex_optsEmpty))
             (unat (AmountR (SwapRequest ex_optsEmpty))) sel) \<and>
   FillProposal (Fill ex_construct ''fe'' 550) ex_optsEmpty = Inl InsufficientFundsError"
proof -
  have none: "\<forall>u\<in>set (MarketUtxos ex_optsEmpty). AssetHash u \<noteq> AssetR (SwapRequest ex_optsEmpty)"
    by (simp add: ex_optsEmpty_def ex_opts_def ex_utxo_def)
  have pos: "0 < unat (AmountR (SwapRequest ex_optsEmpty))"
    by (simp add: ex_optsEmpty_def ex_opts_def)
  have h: "\<forall>sel. \<not> coveringSubset (MarketUtxos ex_optsEmpty) (AssetR (SwapRequest ex_optsEmpty))
             (unat (AmountR (SwapRequest ex_optsEmpty))) sel"
    using no_utxo_of_asset [OF none pos] by blast
  have absent: "AssetR (SwapRequest ex_optsEmpty) \<notin> set (map AssetHash (MarketUtxos ex_optsEmpty))"
    by (simp add: ex_optsEmpty_def ex_opts_def ex_utxo_def)
  from Fill_insufficient_funds [OF h, of ex_construct "''fe''" 550] absent pos h
  show ?thesis by blast
qed

end
